theory Spec2Isabelle
  imports Main "HOL-Library.Sublist"
begin

section \<open>Python strings\<close>

text \<open>
  A Python \<^verbatim>\<open>str\<close> is a sequence of Unicode code points, and two of the library
  functions used by the service (\<^verbatim>\<open>str.splitlines\<close>, \<^verbatim>\<open>str.strip\<close>) treat code points
  beyond the 8-bit range specially (U+2028, U+2029, U+3000, ...). A HOL \<^typ>\<open>char\<close> is a
  byte, so the text handled by the program is modelled as a list of code points, each a
  natural number, and literals of the source are written with \<open>str_of\<close>. Fixed
  identifiers (dictionary keys, agent names, exception class names) are HOL strings.
\<close>

type_synonym codepoint = nat
type_synonym str = "codepoint list"

definition str_of :: "string \<Rightarrow> str" where
  "str_of s = map of_char s"

definition QUOTE :: codepoint where
  \<comment> \<open>the apostrophe, U+0027\<close>
  "QUOTE = 39"

definition LF :: codepoint where
  "LF = 10"

definition CR :: codepoint where
  "CR = 13"

subsection \<open>\<^verbatim>\<open>str.splitlines()\<close>\<close>

text \<open>
  The line boundaries of \<^verbatim>\<open>str.splitlines\<close> (Python library reference): \<^verbatim>\<open>\n\<close>,
  \<^verbatim>\<open>\r\<close>, \<^verbatim>\<open>\r\n\<close>, \<^verbatim>\<open>\v\<close>, \<^verbatim>\<open>\f\<close>, \<^verbatim>\<open>\x1c\<close>, \<^verbatim>\<open>\x1d\<close>, \<^verbatim>\<open>\x1e\<close>, \<^verbatim>\<open>\x85\<close>,
  U+2028 and U+2029.
\<close>

definition is_linebreak :: "codepoint \<Rightarrow> bool" where
  "is_linebreak c \<longleftrightarrow> c \<in> {10, 11, 12, 13, 28, 29, 30, 133, 8232, 8233}"

text \<open>
  \<open>splitlines_from line s\<close> is the scan of CPython's implementation with \<^verbatim>\<open>keepends\<close>
  false: \<open>line\<close> holds the characters of the current line read so far, \<open>s\<close> the rest of the
  input. A boundary closes the current line; \<^verbatim>\<open>\r\n\<close> counts as one boundary; the
  text after the last boundary is a line only when it is not empty.
\<close>

fun splitlines_from :: "str \<Rightarrow> str \<Rightarrow> str list" where
  "splitlines_from line [] = (if line = [] then [] else [line])"
| "splitlines_from line [c] = (if is_linebreak c then [line] else [line @ [c]])"
| "splitlines_from line (c # d # s) =
     (if c = CR \<and> d = LF then line # splitlines_from [] s
      else if is_linebreak c then line # splitlines_from [] (d # s)
      else splitlines_from (line @ [c]) (d # s))"

definition splitlines :: "str \<Rightarrow> str list" where
  "splitlines s = splitlines_from [] s"

subsection \<open>\<^verbatim>\<open>str.replace(old, new)\<close> and \<^verbatim>\<open>str.join\<close>\<close>

text \<open>
  \<^verbatim>\<open>s.replace(old, new)\<close> replaces the occurrences of \<open>old\<close> from left to right without
  overlap; with an empty \<open>old\<close> it puts \<open>new\<close> before every character and at the end.
\<close>

function replace :: "str \<Rightarrow> str \<Rightarrow> str \<Rightarrow> str" where
  "replace [] old new = (if old = [] then new else [])"
| "replace (c # s) old new =
     (if old = [] then new @ c # replace s old new
      else if prefix old (c # s) then new @ replace (drop (length old) (c # s)) old new
      else c # replace s old new)"
  by pat_completeness auto
termination
  by (relation "measure (\<lambda>(s, old, new). length s)") auto

fun join :: "str \<Rightarrow> str list \<Rightarrow> str" where
  "join sep [] = []"
| "join sep [x] = x"
| "join sep (x # y # ys) = x @ sep @ join sep (y # ys)"

subsection \<open>\<^verbatim>\<open>str.strip()\<close>\<close>

text \<open>
  Without an argument \<^verbatim>\<open>strip\<close> removes the leading and trailing characters for which
  \<^verbatim>\<open>str.isspace\<close> holds: the ASCII controls 9 to 13 and 28 to 31, the space, and the
  Unicode spaces U+0085, U+00A0, U+1680, U+2000 to U+200A, U+2028, U+2029, U+202F,
  U+205F and U+3000.
\<close>

definition is_space :: "codepoint \<Rightarrow> bool" where
  "is_space c \<longleftrightarrow>
     (9 \<le> c \<and> c \<le> 13) \<or> (28 \<le> c \<and> c \<le> 32) \<or> c = 133 \<or> c = 160 \<or> c = 5760 \<or>
     (8192 \<le> c \<and> c \<le> 8202) \<or> c = 8232 \<or> c = 8233 \<or> c = 8239 \<or> c = 8287 \<or>
     c = 12288"

definition strip :: "str \<Rightarrow> str" where
  "strip s = rev (dropWhile is_space (rev (dropWhile is_space s)))"

section \<open>Safe script encoder\<close>

text \<open>
  \<^verbatim>\<open>AgentService.generate_compilation_script(class_name, code)\<close>:
  \<^verbatim>\<open>
  if not code:
      return ""
  lines = code.splitlines()
  pharo_lines = [f"'{line.replace("'", "''")}'" for line in lines]
  code_expression = ", Character cr asString, ".join(pharo_lines)
  full_script = f"{class_name} compile: ({code_expression})"
  return full_script
  \<close>
\<close>

definition pharo_line :: "str \<Rightarrow> str" where
  "pharo_line line = [QUOTE] @ replace line [QUOTE] [QUOTE, QUOTE] @ [QUOTE]"

definition separator :: str where
  "separator = str_of '', Character cr asString, ''"

definition generate_compilation_script :: "str \<Rightarrow> str \<Rightarrow> str" where
  "generate_compilation_script class_name code =
     (if code = [] then []
      else let lines = splitlines code;
               pharo_lines = map pharo_line lines;
               code_expression = join separator pharo_lines;
               full_script = class_name @ str_of '' compile: ('' @ code_expression @ str_of '')''
           in full_script)"

subsection \<open>The expression format and its reading, as the specification words them\<close>

text \<open>
  The format of the generated expression:
  \<^verbatim>\<open><ClassName> compile: ('line1', Character cr asString, 'line2', Character cr asString, ...)\<close>.
  A line becomes a string literal of the remote runtime: it is put between two quote
  characters and every quote character inside it is written twice. Every literal but the
  last is followed by the separator. The shape is that of a non-empty list of lines, which
  is what a non-empty code has.
\<close>

definition double_quotes :: "str \<Rightarrow> str" where
  "double_quotes l = concat (map (\<lambda>c. if c = QUOTE then [QUOTE, QUOTE] else [c]) l)"

definition quoted_literal :: "str \<Rightarrow> str" where
  "quoted_literal l = [QUOTE] @ double_quotes l @ [QUOTE]"

definition script_shape :: "str \<Rightarrow> str list \<Rightarrow> str" where
  "script_shape class_name lines =
     class_name @ str_of '' compile: ('' @
     concat (map (\<lambda>l. quoted_literal l @ str_of '', Character cr asString, '') (butlast lines)) @
     quoted_literal (last lines) @ str_of '')''"

text \<open>
  Decoding reads the expression back by the runtime's literal rule: inside a literal two
  consecutive quote characters stand for one, and a single quote character ends the
  literal. \<open>read_literal\<close> takes the text after an opening quote and returns the
  literal's content with the text after its closing quote; \<open>read_segments\<close> reads the
  literals that the separator joins; \<open>decode_script\<close> takes the argument of
  \<^verbatim>\<open><class_name> compile: (...)\<close> and reads its segments.
\<close>

fun read_literal :: "str \<Rightarrow> (str \<times> str) option" where
  "read_literal [] = None"
| "read_literal [c] = (if c = QUOTE then Some ([], []) else None)"
| "read_literal (c # d # s) =
     (if c = QUOTE \<and> d = QUOTE then map_option (\<lambda>(l, r). (QUOTE # l, r)) (read_literal s)
      else if c = QUOTE then Some ([], d # s)
      else map_option (\<lambda>(l, r). (c # l, r)) (read_literal (d # s)))"

function read_segments :: "str \<Rightarrow> str list option" where
  "read_segments [] = None"
| "read_segments (q # body) =
     (if q \<noteq> QUOTE then None
      else case read_literal body of
             None \<Rightarrow> None
           | Some (l, rest) \<Rightarrow>
               if rest = [] then Some [l]
               else if prefix separator rest
                 then map_option ((#) l) (read_segments (drop (length separator) rest))
               else None)"
  by pat_completeness auto
termination
proof -
  have shorter: "read_literal s = Some (m, r) \<Longrightarrow> length r < length s" for s m r
    by (induction s arbitrary: m rule: read_literal.induct) (auto split: if_splits)
  show ?thesis
    by (relation "measure length") (auto dest: shorter)
qed

definition decode_script :: "str \<Rightarrow> str \<Rightarrow> str list option" where
  "decode_script class_name script =
     (let header = class_name @ str_of '' compile: (''
      in if prefix header script \<and> suffix (str_of '')'') script
         then read_segments (butlast (drop (length header) script))
         else None)"

section \<open>The agent service\<close>

subsection \<open>Settings\<close>

text \<open>
  The fields of \<^verbatim>\<open>Settings\<close> (\<^verbatim>\<open>app/config.py\<close>) that the service reads, with the
  defaults of the class.
\<close>

record settings =
  google_api_key :: str
  model_id :: str
  pharo_server_url :: str
  pharo_mcp_server_command :: str
  pharo_mcp_server_args :: "str list"
  pharo_mcp_server_cwd :: str
  pharo_mcp_timeout :: int
  max_validation_iterations :: int

definition default_settings :: settings where
  "default_settings =
     \<lparr>google_api_key = [],
      model_id = str_of ''gemini-3-pro-preview'',
      pharo_server_url = str_of ''http://localhost:8086'',
      pharo_mcp_server_command = str_of ''uv'',
      pharo_mcp_server_args = [str_of ''run'', str_of ''pharo-smalltalk-interop-mcp-server''],
      pharo_mcp_server_cwd = [],
      pharo_mcp_timeout = 30,
      max_validation_iterations = 3\<rparr>"

subsection \<open>Toolset, agents and the pipeline\<close>

text \<open>
  The objects of the agent library are values: a toolset is its connection parameters
  (command, arguments, the \<^verbatim>\<open>PHARO_SERVER_URL\<close> of the environment, working directory,
  timeout); an agent is its name, model, tools and output key, a \<^verbatim>\<open>LoopAgent\<close> its name,
  sub-agents and \<^verbatim>\<open>max_iterations\<close>, a \<^verbatim>\<open>SequentialAgent\<close> its name and sub-agents. The
  instruction texts are read by the language model only and are left out.
\<close>

datatype mcp_toolset = McpToolset str "str list" str str int

datatype tool = Toolset mcp_toolset | FunctionTool string

datatype agent =
    Agent string str "tool list" string
  | LoopAgent string "agent list" int
  | SequentialAgent string "agent list"

text \<open>\<^verbatim>\<open>asyncio.Lock\<close>: the flag that \<^verbatim>\<open>locked()\<close> reads.\<close>

datatype lock = Lock bool

fun locked :: "lock \<Rightarrow> bool" where
  "locked (Lock b) = b"

record agent_service =
  settings :: settings
  toolset :: "mcp_toolset option"
  pipeline :: "agent option"
  lock :: lock

definition AgentService :: "settings \<Rightarrow> agent_service" where
  \<comment> \<open>\<^verbatim>\<open>__init__\<close>\<close>
  "AgentService s = \<lparr>settings = s, toolset = None, pipeline = None, lock = Lock False\<rparr>"

definition init_toolset :: "agent_service \<Rightarrow> agent_service \<times> mcp_toolset" where
  "init_toolset svc =
     (case toolset svc of
        None \<Rightarrow>
          let ts = McpToolset (pharo_mcp_server_command (settings svc))
                     (pharo_mcp_server_args (settings svc))
                     (pharo_server_url (settings svc))
                     (pharo_mcp_server_cwd (settings svc))
                     (pharo_mcp_timeout (settings svc))
          in (svc\<lparr>toolset := Some ts\<rparr>, ts)
      | Some ts \<Rightarrow> (svc, ts))"

definition create_reviewer_agent :: "agent_service \<Rightarrow> mcp_toolset \<Rightarrow> agent" where
  "create_reviewer_agent svc ts =
     Agent ''ReviewerAgent'' (model_id (settings svc))
       [Toolset ts, FunctionTool ''save_context''] ''code_review''"

definition create_initial_writer_agent :: "agent_service \<Rightarrow> agent" where
  "create_initial_writer_agent svc =
     Agent ''InitialWriterAgent'' (model_id (settings svc)) [] ''refactored_code''"

definition create_validator_agent :: "agent_service \<Rightarrow> mcp_toolset \<Rightarrow> agent" where
  "create_validator_agent svc ts =
     Agent ''ValidatorAgent'' (model_id (settings svc)) [Toolset ts] ''validation_result''"

definition create_refiner_agent :: "agent_service \<Rightarrow> agent" where
  "create_refiner_agent svc =
     Agent ''RefinerAgent'' (model_id (settings svc))
       [FunctionTool ''exit_validation_loop''] ''refactored_code''"

definition create_release_agent :: "agent_service \<Rightarrow> mcp_toolset \<Rightarrow> agent" where
  "create_release_agent svc ts =
     Agent ''ReleaseAgent'' (model_id (settings svc))
       [Toolset ts, FunctionTool ''generate_compilation_script''] ''release_status''"

definition create_pipeline :: "agent_service \<Rightarrow> agent_service \<times> agent" where
  "create_pipeline svc =
     (let (svc', ts) = init_toolset svc;
          reviewer_agent = create_reviewer_agent svc' ts;
          initial_writer_agent = create_initial_writer_agent svc';
          validator_agent = create_validator_agent svc' ts;
          refiner_agent = create_refiner_agent svc';
          release_agent = create_release_agent svc' ts;
          validation_loop = LoopAgent ''ValidationLoop'' [validator_agent, refiner_agent]
                              (max_validation_iterations (settings svc'))
      in (svc', SequentialAgent ''PharoRefactoringPipeline''
                  [reviewer_agent, initial_writer_agent, validation_loop, release_agent]))"

subsection \<open>The tools of the service\<close>

text \<open>
  A tool receives the library's tool context. The two tools test it before use
  (\<^verbatim>\<open>if tool_context and hasattr(tool_context, 'actions')\<close>): the context may be
  \<^verbatim>\<open>None\<close> (here \<open>None\<close>) and may lack the attribute (here a field that is \<open>None\<close>).
  The tools update the context in place; the model returns it updated.
\<close>

record event_actions =
  escalate :: bool

record session =
  state :: "string \<rightharpoonup> str"

record tool_context =
  session :: "session option"
  actions :: "event_actions option"

definition save_context :: "tool_context option \<Rightarrow> str \<Rightarrow> str \<Rightarrow> tool_context option \<times> str" where
  "save_context tc class_name method_name =
     (case tc of
        Some ctx \<Rightarrow>
          (case session ctx of
             Some sess \<Rightarrow>
               (Some (ctx\<lparr>session := Some (sess\<lparr>state := (state sess)
                        (''class_name'' \<mapsto> class_name, ''method_name'' \<mapsto> method_name)\<rparr>)\<rparr>),
                str_of ''Context saved. Class: '' @ class_name @ str_of '', Method: '' @
                method_name)
           | None \<Rightarrow> (tc, str_of ''Error: Could not save context (missing session).''))
      | None \<Rightarrow> (tc, str_of ''Error: Could not save context (missing session).''))"

definition exit_validation_loop :: "tool_context option \<Rightarrow> tool_context option \<times> (string \<rightharpoonup> str)" where
  "exit_validation_loop tc =
     (case tc of
        Some ctx \<Rightarrow>
          (case actions ctx of
             Some acts \<Rightarrow>
               (Some (ctx\<lparr>actions := Some (acts\<lparr>escalate := True\<rparr>)\<rparr>),
                [''status'' \<mapsto> str_of ''approved'',
                 ''message'' \<mapsto> str_of ''Code validated. Exiting validation loop.''])
           | None \<Rightarrow>
               (tc, [''status'' \<mapsto> str_of ''error'',
                     ''message'' \<mapsto> str_of ''Failed to exit loop: tool_context missing.'']))
      | None \<Rightarrow>
          (tc, [''status'' \<mapsto> str_of ''error'',
                ''message'' \<mapsto> str_of ''Failed to exit loop: tool_context missing.'']))"


subsection \<open>Exceptions and the libraries the service calls\<close>

text \<open>
  \<^verbatim>\<open>except Exception\<close> catches an exception exactly when its class derives from
  \<^verbatim>\<open>Exception\<close>. That is a property of the class of the object raised, so an exception
  value carries it: it is an instance of a class below \<^verbatim>\<open>Exception\<close>, or an instance of a
  class that derives from \<^verbatim>\<open>BaseException\<close> without passing through \<^verbatim>\<open>Exception\<close>
  (\<^verbatim>\<open>asyncio.CancelledError\<close>, \<^verbatim>\<open>KeyboardInterrupt\<close>, \<^verbatim>\<open>SystemExit\<close>,
  \<^verbatim>\<open>GeneratorExit\<close>, \<^verbatim>\<open>BaseExceptionGroup\<close>, or a class of a library that is declared
  so). With it go the name of the class and the message \<^verbatim>\<open>str(e)\<close>.
\<close>

datatype py_exception =
    ExceptionInstance string str
  | BaseExceptionInstance string str

fun exc_str :: "py_exception \<Rightarrow> str" where
  "exc_str (ExceptionInstance cls msg) = msg"
| "exc_str (BaseExceptionInstance cls msg) = msg"

fun isinstance_Exception :: "py_exception \<Rightarrow> bool" where
  "isinstance_Exception (ExceptionInstance cls msg) = True"
| "isinstance_Exception (BaseExceptionInstance cls msg) = False"

definition CancelledError :: py_exception where
  "CancelledError = BaseExceptionInstance ''asyncio.CancelledError'' []"

text \<open>
  The libraries are outside the repository, and every call into them may raise. For the
  calls made by \<^verbatim>\<open>refactor_method\<close> the library says what happens:
  \<^item> \<open>toolset_raises ts\<close>: the exception of \<^verbatim>\<open>McpToolset(connection_params=...)\<close>, if
    it raises;
  \<^item> \<open>agents_raise p\<close>: the first exception raised while the agents of the pipeline \<open>p\<close>
    are constructed (\<^verbatim>\<open>Gemini\<close>, \<^verbatim>\<open>FunctionTool\<close>, \<^verbatim>\<open>Agent\<close>, \<^verbatim>\<open>LoopAgent\<close>,
    \<^verbatim>\<open>SequentialAgent\<close>), if one raises;
  \<^item> \<open>runner_raises p\<close>: the exception of \<^verbatim>\<open>InMemoryRunner(agent=pipeline)\<close>, if it
    raises;
  \<^item> \<open>run_debug p prompt\<close>: what \<^verbatim>\<open>await runner.run_debug(prompt)\<close> gives, a response
    or an exception, among them the \<^verbatim>\<open>CancelledError\<close> of a task cancelled during the
    run;
  \<^item> \<open>wait_cancelled\<close>: whether the event loop cancels a call that waits for the lock.
\<close>

datatype 'r outcome = Returns 'r | Raises py_exception

record 'r library =
  toolset_raises :: "mcp_toolset \<Rightarrow> py_exception option"
  agents_raise :: "agent \<Rightarrow> py_exception option"
  runner_raises :: "agent \<Rightarrow> py_exception option"
  run_debug :: "agent \<Rightarrow> str \<Rightarrow> 'r outcome"
  wait_cancelled :: bool

text \<open>
  \<^verbatim>\<open>get_pipeline\<close> returns the cached pipeline or builds it. \<open>init_toolset\<close> and
  \<open>create_pipeline\<close> above give the objects that are built when no constructor raises.
  When \<^verbatim>\<open>McpToolset(...)\<close> raises nothing has been assigned; when a constructor of the
  agents raises the toolset has been assigned and the pipeline has not.
\<close>

definition get_pipeline :: "'r library \<Rightarrow> agent_service \<Rightarrow> agent_service \<times> (py_exception + agent)" where
  "get_pipeline lib svc =
     (case pipeline svc of
        Some p \<Rightarrow> (svc, Inr p)
      | None \<Rightarrow>
          (case (case toolset svc of
                   None \<Rightarrow> toolset_raises lib (snd (init_toolset svc))
                 | Some ts \<Rightarrow> None) of
             Some e \<Rightarrow> (svc, Inl e)
           | None \<Rightarrow>
               (let (svc', p) = create_pipeline svc
                in case agents_raise lib p of
                     Some e \<Rightarrow> (svc', Inl e)
                   | None \<Rightarrow> (svc'\<lparr>pipeline := Some p\<rparr>, Inr p))))"

subsection \<open>\<^verbatim>\<open>refactor_method\<close>\<close>

text \<open>
  The record returned by the service is a \<^verbatim>\<open>dict[str, Any]\<close>.
\<close>

datatype 'r pyval = Bool bool | Str str | Obj 'r

type_synonym 'r pydict = "string \<rightharpoonup> 'r pyval"

definition make_prompt :: "str \<Rightarrow> str \<Rightarrow> str" where
  "make_prompt class_name method_name =
     str_of ''Review and refactor the method '' @ [QUOTE] @ method_name @ [QUOTE] @
     str_of '' in class '' @ [QUOTE] @ class_name @ [QUOTE] @ str_of ''.''"


text \<open>
  How the \<^verbatim>\<open>try\<close> statement ends: with the success record of the \<^verbatim>\<open>return\<close>, with
  the failure record of the \<^verbatim>\<open>except Exception\<close> clause, or with the exception itself
  when the clause does not catch it.
\<close>

definition settle :: "str \<Rightarrow> str \<Rightarrow> 'r outcome \<Rightarrow> py_exception + 'r pydict" where
  "settle class_name method_name out =
     (case out of
        Returns response \<Rightarrow>
          Inr [''success'' \<mapsto> Bool True, ''class_name'' \<mapsto> Str class_name,
               ''method_name'' \<mapsto> Str method_name, ''result'' \<mapsto> Obj response]
      | Raises e \<Rightarrow>
          if isinstance_Exception e
          then Inr [''success'' \<mapsto> Bool False, ''class_name'' \<mapsto> Str class_name,
                    ''method_name'' \<mapsto> Str method_name, ''error'' \<mapsto> Str (exc_str e)]
          else Inl e)"

text \<open>
  \<^verbatim>\<open>refactor_method\<close> is a coroutine. A call of it is at one of these places:
  \<^item> \<open>Start\<close>: called, at \<^verbatim>\<open>async with self._lock\<close>;
  \<^item> \<open>AwaitLock\<close>: suspended in \<^verbatim>\<open>acquire\<close>, because the lock was held;
  \<^item> \<open>InTry\<close>: the lock taken, at the first statement of the \<^verbatim>\<open>try\<close> block;
  \<^item> \<open>AwaitRun\<close>: suspended in \<^verbatim>\<open>await runner.run_debug(prompt)\<close>;
  \<^item> \<open>Leaving\<close>: the \<^verbatim>\<open>try\<close> statement has ended with a record to return or an
    exception to propagate, at the exit of \<^verbatim>\<open>async with\<close>;
  \<^item> \<open>Done\<close>: the call has returned the record or raised the exception.

  \<open>refactor_method_step\<close> runs the code of the call from one place to the next.
  \<^verbatim>\<open>async with self._lock\<close> enters through \<^verbatim>\<open>acquire\<close>, which takes the lock when it is
  free and suspends otherwise; a suspended call goes on when the lock has been released,
  and takes it, or leaves with \<^verbatim>\<open>CancelledError\<close> when it is cancelled. The exit of
  \<^verbatim>\<open>async with\<close> releases the lock, after a \<^verbatim>\<open>return\<close> as after an exception.
\<close>

datatype 'r frame =
    Start str str
  | AwaitLock str str
  | InTry str str
  | AwaitRun str str agent str
  | Leaving "py_exception + 'r pydict"
  | Done "py_exception + 'r pydict"

fun refactor_method_step :: "'r library \<Rightarrow> agent_service \<Rightarrow> 'r frame \<Rightarrow> agent_service \<times> 'r frame" where
  "refactor_method_step lib svc (Start class_name method_name) =
     (if locked (lock svc) then (svc, AwaitLock class_name method_name)
      else (svc\<lparr>lock := Lock True\<rparr>, InTry class_name method_name))"
| "refactor_method_step lib svc (AwaitLock class_name method_name) =
     (if wait_cancelled lib then (svc, Done (Inl CancelledError))
      else if locked (lock svc) then (svc, AwaitLock class_name method_name)
      else (svc\<lparr>lock := Lock True\<rparr>, InTry class_name method_name))"
| "refactor_method_step lib svc (InTry class_name method_name) =
     (case get_pipeline lib svc of
        (svc', Inl e) \<Rightarrow> (svc', Leaving (settle class_name method_name (Raises e)))
      | (svc', Inr p) \<Rightarrow>
          (case runner_raises lib p of
             Some e \<Rightarrow> (svc', Leaving (settle class_name method_name (Raises e)))
           | None \<Rightarrow> (svc', AwaitRun class_name method_name p
                                (make_prompt class_name method_name))))"
| "refactor_method_step lib svc (AwaitRun class_name method_name p prompt) =
     (svc, Leaving (settle class_name method_name (run_debug lib p prompt)))"
| "refactor_method_step lib svc (Leaving res) = (svc\<lparr>lock := Lock False\<rparr>, Done res)"
| "refactor_method_step lib svc (Done res) = (svc, Done res)"

text \<open>
  One call run on its own: the steps of the call one after the other until it is done.
  From \<open>Start\<close> a call is done after four steps. A call that waits for a lock that nobody
  releases never gets there; its result is \<open>None\<close>.
\<close>

fun drive :: "nat \<Rightarrow> 'r library \<Rightarrow> agent_service \<Rightarrow> 'r frame \<Rightarrow>
    (agent_service \<times> (py_exception + 'r pydict)) option" where
  "drive n lib svc (Done res) = Some (svc, res)"
| "drive 0 lib svc f = None"
| "drive (Suc n) lib svc f =
     (let (svc', f') = refactor_method_step lib svc f in drive n lib svc' f')"

definition refactor_method ::
  "'r library \<Rightarrow> agent_service \<Rightarrow> str \<Rightarrow> str \<Rightarrow>
   (agent_service \<times> (py_exception + 'r pydict)) option" where
  "refactor_method lib svc class_name method_name =
     drive 4 lib svc (Start class_name method_name)"


subsection \<open>Concurrent calls\<close>





subsection \<open>Libraries and states for the examples\<close>

definition library_with :: "(agent \<Rightarrow> str \<Rightarrow> 'r outcome) \<Rightarrow> 'r library" where
  \<comment> \<open>libraries whose constructors do not raise, with the given runner\<close>
  "library_with run =
     \<lparr>toolset_raises = (\<lambda>ts. None), agents_raise = (\<lambda>p. None), runner_raises = (\<lambda>p. None),
      run_debug = run, wait_cancelled = False\<rparr>"



definition echo_run :: "agent \<Rightarrow> str \<Rightarrow> str outcome" where
  \<comment> \<open>a run that succeeds\<close>
  "echo_run p prompt = Returns prompt"





section \<open>The inbound boundary\<close>

text \<open>
  \<^verbatim>\<open>RefactorRequest\<close> (\<^verbatim>\<open>app/models.py\<close>): two string fields with \<^verbatim>\<open>min_length=1\<close>
  and the field validator \<^verbatim>\<open>validate_not_empty\<close>:
  \<^verbatim>\<open>
  if not v.strip():
      raise ValueError("Field cannot be empty or whitespace only")
  return v.strip()
  \<close>
\<close>

record RefactorRequest =
  request_class_name :: str
  request_method_name :: str

definition validate_not_empty :: "str \<Rightarrow> py_exception + str" where
  "validate_not_empty v =
     (if strip v = [] then Inl (ExceptionInstance ''ValueError'' (str_of ''Field cannot be empty or whitespace only''))
      else Inr (strip v))"

text \<open>
  The validation library checks the constraint of the field first and runs the field
  validator on a value that passed; a \<^verbatim>\<open>ValueError\<close> of the validator is an error of the
  field. The request is built when both fields pass, from the values the validator
  returned; otherwise the errors of the fields are collected.
\<close>

datatype field_error = string_too_short | value_error str

definition validate_field :: "str \<Rightarrow> field_error + str" where
  "validate_field v =
     (if length v < 1 then Inl string_too_short
      else case validate_not_empty v of
             Inl e \<Rightarrow> Inl (value_error (exc_str e))
           | Inr s \<Rightarrow> Inr s)"

fun field_errors :: "string \<Rightarrow> field_error + str \<Rightarrow> (string \<times> field_error) list" where
  "field_errors name (Inl e) = [(name, e)]"
| "field_errors name (Inr s) = []"

definition validate_request :: "str \<Rightarrow> str \<Rightarrow> (string \<times> field_error) list + RefactorRequest" where
  "validate_request raw_class_name raw_method_name =
     (case (validate_field raw_class_name, validate_field raw_method_name) of
        (Inr c, Inr m) \<Rightarrow> Inr \<lparr>request_class_name = c, request_method_name = m\<rparr>
      | (rc, rm) \<Rightarrow> Inl (field_errors ''class_name'' rc @ field_errors ''method_name'' rm))"

text \<open>
  The endpoint \<^verbatim>\<open>POST /api/v1/refactor\<close> (\<^verbatim>\<open>app/routers/refactor.py\<close>) declares a
  \<^verbatim>\<open>RefactorRequest\<close> parameter. The web framework validates the body first: when
  validation fails the endpoint function is not called and the errors are answered with
  status 422 (\<^verbatim>\<open>validation_exception_handler\<close>); otherwise the endpoint function is
  called with the request that validation built.
\<close>

definition post_refactor ::
  "(RefactorRequest \<Rightarrow> 'a) \<Rightarrow> str \<Rightarrow> str \<Rightarrow> (string \<times> field_error) list + 'a" where
  "post_refactor endpoint raw_class_name raw_method_name =
     (case validate_request raw_class_name raw_method_name of
        Inl errors \<Rightarrow> Inl errors
      | Inr refactor_request \<Rightarrow> Inr (endpoint refactor_request))"

text \<open>
  The part of the endpoint function that reaches the service:
  \<^verbatim>\<open>agent_service.refactor_method(class_name=refactor_request.class_name,
  method_name=refactor_request.method_name)\<close>.
\<close>

definition call_service ::
  "'r library \<Rightarrow> agent_service \<Rightarrow> RefactorRequest \<Rightarrow>
   (agent_service \<times> (py_exception + 'r pydict)) option" where
  "call_service lib svc refactor_request =
     refactor_method lib svc (request_class_name refactor_request)
       (request_method_name refactor_request)"

section \<open>The pipeline runner\<close>

text \<open>
  Modelled from the spec: the execution of the agents. The repository builds the
  pipeline (\<open>create_pipeline\<close> above) and hands it to the runner of the agent library;
  the classes \<^verbatim>\<open>Agent\<close>, \<^verbatim>\<open>LoopAgent\<close> and \<^verbatim>\<open>SequentialAgent\<close> and the language model
  behind every stage are not part of it. What follows is the specification's design of
  them (sections 3, 4.2 to 4.6 and 9).

  \<^item> The blackboard maps keys to values; a run starts with an empty one.
  \<^item> The text oracle of a stage answers with an optional output text and the tool
    invocations it makes, or fails (a missing key of its template, an unreachable
    runtime, a failed tool): \<^verbatim>\<open>Oracle.converse(role, rendered_prompt, available_tools)
    -> (output_text, tool_invocations)\<close>. It can invoke only the tools of its stage.
  \<^item> A stage writes the output text under its output key; the first failure aborts the
    run.
  \<^item> The loop has the states ITERATING, EXITED and CAPPED and an iteration counter that
    starts at 0. An iteration runs the stages of the loop in order and increments the
    counter. The escalate flag is checked after each full iteration: when it is set the
    loop is EXITED; when the counter reaches the maximum without it the loop is CAPPED.
\<close>

datatype loop_state = ITERATING | EXITED | CAPPED

datatype run_event = StageRun string | LoopEnded loop_state int

record run_state =
  blackboard :: "string \<rightharpoonup> str"
  escalate_flag :: bool
  events :: "run_event list"
  failure :: "py_exception option"

definition initial_state :: run_state where
  "initial_state = \<lparr>blackboard = Map.empty, escalate_flag = False, events = [], failure = None\<rparr>"

datatype tool_call =
    save_context_call str str
  | exit_validation_loop_call
  | generate_compilation_script_call str str
  | remote_call string "str list"

record stage_reply =
  produced :: "str option"
  tool_calls :: "tool_call list"

type_synonym converse = "string \<Rightarrow> (string \<rightharpoonup> str) \<Rightarrow> py_exception + stage_reply"

text \<open>
  A tool invocation runs the tool of the service on a tool context that shows the
  blackboard as the session state and the escalate flag as the action; what the tool
  leaves in the context is written back. The remote tools and the script encoder do not
  touch the run state.
\<close>

definition context_of :: "run_state \<Rightarrow> tool_context" where
  "context_of st =
     \<lparr>session = Some \<lparr>state = blackboard st\<rparr>, actions = Some \<lparr>escalate = escalate_flag st\<rparr>\<rparr>"

fun write_back :: "tool_context option \<Rightarrow> run_state \<Rightarrow> run_state" where
  "write_back None st = st"
| "write_back (Some ctx) st =
     st\<lparr>blackboard := (case session ctx of Some sess \<Rightarrow> state sess | None \<Rightarrow> blackboard st),
        escalate_flag := (case actions ctx of Some acts \<Rightarrow> escalate acts
                          | None \<Rightarrow> escalate_flag st)\<rparr>"

fun apply_tool_call :: "tool list \<Rightarrow> tool_call \<Rightarrow> run_state \<Rightarrow> run_state" where
  "apply_tool_call tools (save_context_call class_name method_name) st =
     (if FunctionTool ''save_context'' \<in> set tools
      then write_back (fst (save_context (Some (context_of st)) class_name method_name)) st
      else st)"
| "apply_tool_call tools exit_validation_loop_call st =
     (if FunctionTool ''exit_validation_loop'' \<in> set tools
      then write_back (fst (exit_validation_loop (Some (context_of st)))) st
      else st)"
| "apply_tool_call tools (generate_compilation_script_call class_name code) st = st"
| "apply_tool_call tools (remote_call name arguments) st = st"

definition run_stage :: "converse \<Rightarrow> string \<Rightarrow> tool list \<Rightarrow> string \<Rightarrow> run_state \<Rightarrow> run_state" where
  "run_stage orc name tools output_key st =
     (let st1 = st\<lparr>events := events st @ [StageRun name]\<rparr>
      in case orc name (blackboard st1) of
           Inl e \<Rightarrow> st1\<lparr>failure := Some e\<rparr>
         | Inr reply \<Rightarrow>
             let st2 = fold (apply_tool_call tools) (tool_calls reply) st1
             in case produced reply of
                  None \<Rightarrow> st2
                | Some text \<Rightarrow> st2\<lparr>blackboard := (blackboard st2)(output_key \<mapsto> text)\<rparr>)"

function run_agent :: "converse \<Rightarrow> agent \<Rightarrow> run_state \<Rightarrow> run_state"
  and run_agents :: "converse \<Rightarrow> agent list \<Rightarrow> run_state \<Rightarrow> run_state"
  and run_loop :: "converse \<Rightarrow> agent list \<Rightarrow> int \<Rightarrow> int \<Rightarrow> run_state \<Rightarrow> run_state" where
  "run_agent orc (Agent name model tools output_key) st = run_stage orc name tools output_key st"
| "run_agent orc (SequentialAgent name sub_agents) st = run_agents orc sub_agents st"
| "run_agent orc (LoopAgent name sub_agents max_iterations) st =
     run_loop orc sub_agents max_iterations 0 st"
| "run_agents orc [] st = st"
| "run_agents orc (a # rest) st =
     (let st' = run_agent orc a st
      in if failure st' \<noteq> None then st' else run_agents orc rest st')"
| "run_loop orc sub_agents max_iterations counter st =
     (if max_iterations \<le> counter
      then st\<lparr>events := events st @ [LoopEnded CAPPED counter]\<rparr>
      else let st' = run_agents orc sub_agents st
           in if failure st' \<noteq> None then st'
              else if escalate_flag st'
                then st'\<lparr>events := events st' @ [LoopEnded EXITED (counter + 1)]\<rparr>
              else run_loop orc sub_agents max_iterations (counter + 1) st')"
  by pat_completeness auto
termination
  by (relation "inv_image (less_than <*lex*> less_than)
       (\<lambda>x. case x of
          Inl (orc, a, st) \<Rightarrow> (size a, 0)
        | Inr (Inl (orc, sub_agents, st)) \<Rightarrow> (size_list size sub_agents, 0)
        | Inr (Inr (orc, sub_agents, max_iterations, counter, st)) \<Rightarrow>
            (size_list size sub_agents, nat (max_iterations - counter) + 1))")
     auto

declare run_loop.simps [simp del]

text \<open>
  A text oracle whose Validator never approves: the Reviewer records the identity and
  fetches the source, the Validator always asks for an improvement, every other stage
  answers with code and invokes no tool.
\<close>

definition stubborn_validator :: converse where
  "stubborn_validator name bb =
     (if name = ''ReviewerAgent''
      then Inr \<lparr>produced = Some (str_of ''Severity: HIGH''),
                tool_calls = [save_context_call (str_of ''Calculator'') (str_of ''sum:with:''),
                              remote_call ''get_method_source''
                                [str_of ''Calculator'', str_of ''sum:with:'']]\<rparr>
      else if name = ''ValidatorAgent''
      then Inr \<lparr>produced = Some (str_of ''NEEDS IMPROVEMENT: rename the arguments''),
                tool_calls = []\<rparr>
      else Inr \<lparr>produced = Some (str_of ''sum: first with: second ^ first + second''),
                tool_calls = []\<rparr>)"



section \<open>Properties of the safe script encoder\<close>

lemma replace_quote: "replace l [QUOTE] [QUOTE, QUOTE] = double_quotes l"
  by (induction l) (simp_all add: double_quotes_def)

lemma pharo_line_quoted: "pharo_line l = quoted_literal l"
  by (simp add: pharo_line_def quoted_literal_def replace_quote)

lemma join_shape:
  "ls \<noteq> [] \<Longrightarrow> join sep ls = concat (map (\<lambda>l. l @ sep) (butlast ls)) @ last ls"
  by (induction sep ls rule: join.induct) simp_all

lemma splitlines_from_nonempty: "line \<noteq> [] \<or> s \<noteq> [] \<Longrightarrow> splitlines_from line s \<noteq> []"
  by (induction line s rule: splitlines_from.induct) simp_all

lemma splitlines_nonempty: "s \<noteq> [] \<Longrightarrow> splitlines s \<noteq> []"
  by (simp add: splitlines_def splitlines_from_nonempty)

lemma splitlines_from_no_linebreak:
  "\<forall>c \<in> set line. \<not> is_linebreak c \<Longrightarrow> l \<in> set (splitlines_from line s) \<Longrightarrow>
   c \<in> set l \<Longrightarrow> \<not> is_linebreak c"
  by (induction line s rule: splitlines_from.induct) (auto split: if_splits)

lemma splitlines_no_linebreak:
  "l \<in> set (splitlines s) \<Longrightarrow> c \<in> set l \<Longrightarrow> \<not> is_linebreak c"
  using splitlines_from_no_linebreak [of "[]" l s c] by (simp add: splitlines_def)

lemma script_exact_shape_unfolded:
  "code \<noteq> [] \<Longrightarrow>
   generate_compilation_script class_name code = script_shape class_name (splitlines code)"
  by (simp add: generate_compilation_script_def script_shape_def Let_def join_shape
      splitlines_nonempty separator_def map_butlast [symmetric] last_map pharo_line_quoted
      comp_def)

text \<open>
  C7. For every class name, \<open>generate_compilation_script class_name ""\<close> is the empty
  string.
\<close>

theorem encode_empty_code: "generate_compilation_script class_name [] = []"
  by (simp add: generate_compilation_script_def)

text \<open>
  C5. For every class name and every non-empty code, the script is exactly
  \<^verbatim>\<open><class_name> compile: ('line1', Character cr asString, 'line2', ...)\<close>: the lines of
  the code in order, each between single quotes with its quote characters doubled, each
  but the last followed by the separator \<^verbatim>\<open>, Character cr asString, \<close>.
\<close>

theorem script_exact_shape:
  "code \<noteq> [] \<Longrightarrow>
   generate_compilation_script class_name code = script_shape class_name (splitlines code)"
  by (rule script_exact_shape_unfolded)

theorem script_exact_shape_witness:
  "[97, 39, 98, 13, 10, 99] \<noteq> ([] :: str) \<and>
   generate_compilation_script (str_of ''Foo'') [97, 39, 98, 13, 10, 99] =
     str_of ''Foo compile: ('' @ [39, 97, 39, 39, 98, 39] @
     str_of '', Character cr asString, '' @ [39, 99, 39] @ str_of '')''"
  using script_exact_shape [of "[97, 39, 98, 13, 10, 99]" "str_of ''Foo''"]
  by (simp add: script_shape_def splitlines_def is_linebreak_def CR_def LF_def str_of_def
      quoted_literal_def double_quotes_def QUOTE_def)

lemma read_literal_plain:
  "c \<noteq> QUOTE \<Longrightarrow> read_literal (c # s) = map_option (\<lambda>(l, r). (c # l, r)) (read_literal s)"
  by (cases s) simp_all

lemma read_literal_close:
  "r = [] \<or> hd r \<noteq> QUOTE \<Longrightarrow> read_literal (QUOTE # r) = Some ([], r)"
  by (cases r) simp_all

lemma read_literal_double_quotes:
  "r = [] \<or> hd r \<noteq> QUOTE \<Longrightarrow> read_literal (double_quotes l @ QUOTE # r) = Some (l, r)"
  by (induction l) (simp_all add: double_quotes_def read_literal_plain read_literal_close)

lemma hd_separator: "hd (separator @ r) \<noteq> QUOTE"
  by (simp add: separator_def str_of_def QUOTE_def)

lemma separator_nonempty: "separator \<noteq> []"
  by (simp add: separator_def str_of_def)

lemma read_segments_join:
  "ls \<noteq> [] \<Longrightarrow> read_segments (join separator (map quoted_literal ls)) = Some ls"
proof (induction ls rule: list_nonempty_induct)
  case (single x)
  have "read_literal (double_quotes x @ QUOTE # []) = Some (x, [])"
    by (rule read_literal_double_quotes) simp
  then show ?case by (simp add: quoted_literal_def)
next
  case (cons x xs)
  then obtain y ys where xs: "xs = y # ys" by (cases xs) auto
  let ?rest = "separator @ join separator (map quoted_literal xs)"
  have lit: "read_literal (double_quotes x @ QUOTE # ?rest) = Some (x, ?rest)"
    by (rule read_literal_double_quotes) (simp add: hd_separator)
  have "join separator (map quoted_literal (x # xs)) = QUOTE # double_quotes x @ QUOTE # ?rest"
    by (simp add: xs quoted_literal_def)
  then have "read_segments (join separator (map quoted_literal (x # xs)))
      = map_option ((#) x) (read_segments (join separator (map quoted_literal xs)))"
    by (simp add: lit separator_nonempty)
  then show ?case by (simp add: cons.IH)
qed

text \<open>
  C1. For every non-empty code, decoding the script (reading the quoted segments that
  the separator joins and replacing every doubled quote character by one) gives back
  exactly the lines of the code, its \<^verbatim>\<open>splitlines\<close> decomposition.
\<close>

theorem decode_encode_roundtrip:
  "code \<noteq> [] \<Longrightarrow>
   decode_script class_name (generate_compilation_script class_name code) =
     Some (splitlines code)"
  using read_segments_join [of "splitlines code"]
  by (simp add: decode_script_def generate_compilation_script_def Let_def splitlines_nonempty
      pharo_line_quoted [abs_def] str_of_def suffix_def)

theorem decode_encode_roundtrip_witness:
  "[97, 39, 98, 13, 10, 39, 10, 44, 32, 39] \<noteq> ([] :: str) \<and>
   decode_script (str_of ''Foo'')
     (generate_compilation_script (str_of ''Foo'') [97, 39, 98, 13, 10, 39, 10, 44, 32, 39]) =
     Some ([97, 39, 98] # [39] # [44, 32, 39] # [])"
  using decode_encode_roundtrip [of "[97, 39, 98, 13, 10, 39, 10, 44, 32, 39]" "str_of ''Foo''"]
  by (simp add: splitlines_def is_linebreak_def CR_def LF_def)

text \<open>
  C6, as the code has it. A class name is copied into the script unchanged, so a line
  break in the class name is a line break in the script.
\<close>

theorem script_single_line_counterexample:
  "is_linebreak LF \<and> LF \<in> set (generate_compilation_script [65, LF, 66] (str_of ''x''))"
  by (simp add: generate_compilation_script_def str_of_def is_linebreak_def LF_def)

text \<open>
  C6, amended. For every code, a line-break character that does not occur in the class
  name does not occur in the script: with a class name that holds no line break the
  script is a single line.
\<close>

theorem script_single_line:
  assumes "is_linebreak b" and "b \<notin> set class_name"
  shows "b \<notin> set (generate_compilation_script class_name code)"
proof (cases "code = []")
  case True
  then show ?thesis by (simp add: generate_compilation_script_def)
next
  case False
  have fixed: "b \<noteq> QUOTE" "b \<notin> set (str_of '' compile: ('')" "b \<notin> set (str_of '')'')"
    "b \<notin> set (str_of '', Character cr asString, '')"
    using assms(1) by (auto simp: is_linebreak_def QUOTE_def str_of_def)
  have line: "b \<notin> set l" if "l \<in> set (splitlines code)" for l
    using that assms(1) splitlines_no_linebreak by blast
  have "b \<notin> set (quoted_literal l)" if "l \<in> set (splitlines code)" for l
    using line [OF that] fixed(1) by (auto simp: quoted_literal_def double_quotes_def)
  moreover have "last (splitlines code) \<in> set (splitlines code)"
    using False by (simp add: splitlines_nonempty)
  moreover have "l \<in> set (splitlines code)" if "l \<in> set (butlast (splitlines code))" for l
    using that by (rule in_set_butlastD)
  ultimately have "b \<notin> set (script_shape class_name (splitlines code))"
    using assms(2) fixed by (auto simp: script_shape_def)
  then show ?thesis
    using False by (simp add: script_exact_shape_unfolded)
qed

theorem script_single_line_witness:
  "is_linebreak LF \<and> LF \<notin> set (str_of ''Foo'') \<and>
   LF \<notin> set (generate_compilation_script (str_of ''Foo'') [97, 10, 98, 13, 10])"
  using script_single_line [of LF "str_of ''Foo''" "[97, 10, 98, 13, 10]"]
  by (simp add: is_linebreak_def LF_def str_of_def)

text \<open>
  C8. A line that is a single quote character becomes the literal of four quote
  characters: the opening quote, the character doubled, the closing quote. This holds
  when the line is the whole code and when it stands between other lines.
\<close>

theorem single_quote_line_escaped:
  "pharo_line [QUOTE] = [QUOTE, QUOTE, QUOTE, QUOTE] \<and>
   generate_compilation_script class_name [QUOTE] =
     class_name @ str_of '' compile: ('' @ [QUOTE, QUOTE, QUOTE, QUOTE] @ str_of '')'' \<and>
   generate_compilation_script class_name [97, LF, QUOTE, LF, 98] =
     class_name @ str_of '' compile: ('' @ [QUOTE, 97, QUOTE] @ separator @
     [QUOTE, QUOTE, QUOTE, QUOTE] @ separator @ [QUOTE, 98, QUOTE] @ str_of '')''"
  by (simp add: generate_compilation_script_def pharo_line_def splitlines_def
      is_linebreak_def QUOTE_def LF_def CR_def)

section \<open>Properties of the service\<close>
























section \<open>Properties of the inbound boundary\<close>

lemma trim_right_split:
  "w = rev (dropWhile P (rev w)) @ rev (takeWhile P (rev w))"
proof -
  have "rev (dropWhile P (rev w)) @ rev (takeWhile P (rev w)) =
      rev (takeWhile P (rev w) @ dropWhile P (rev w))"
    by (simp only: rev_append)
  also have "\<dots> = rev (rev w)"
    by (simp only: takeWhile_dropWhile_id)
  finally show ?thesis by simp
qed

lemma dropWhile_all: "(\<forall>x \<in> set (dropWhile P v). P x) \<longleftrightarrow> (\<forall>x \<in> set v. P x)"
proof
  assume all: "\<forall>x \<in> set (dropWhile P v). P x"
  show "\<forall>x \<in> set v. P x"
  proof (rule ccontr)
    assume "\<not> (\<forall>x \<in> set v. P x)"
    then have ne: "dropWhile P v \<noteq> []" by simp
    then have "\<not> P (hd (dropWhile P v))" by (rule hd_dropWhile)
    moreover from ne have "hd (dropWhile P v) \<in> set (dropWhile P v)" by (rule hd_in_set)
    ultimately show False using all by blast
  qed
next
  assume "\<forall>x \<in> set v. P x"
  then show "\<forall>x \<in> set (dropWhile P v). P x"
    by (auto dest: set_dropWhileD)
qed

lemma strip_empty_iff: "strip v = [] \<longleftrightarrow> (\<forall>c \<in> set v. is_space c)"
proof -
  have "strip v = [] \<longleftrightarrow> (\<forall>x \<in> set (dropWhile is_space v). is_space x)"
    by (simp add: strip_def)
  also have "\<dots> \<longleftrightarrow> (\<forall>c \<in> set v. is_space c)"
    by (rule dropWhile_all)
  finally show ?thesis .
qed

lemma strip_decomposition:
  "\<exists>pre post. v = pre @ strip v @ post \<and> (\<forall>c \<in> set pre. is_space c) \<and>
     (\<forall>c \<in> set post. is_space c)"
proof -
  let ?w = "dropWhile is_space v"
  have w: "?w = strip v @ rev (takeWhile is_space (rev ?w))"
    unfolding strip_def by (rule trim_right_split)
  have "v = takeWhile is_space v @ ?w"
    by simp
  with w have "v = takeWhile is_space v @ strip v @ rev (takeWhile is_space (rev ?w))"
    by simp
  moreover have "\<forall>c \<in> set (takeWhile is_space v). is_space c"
    by (auto dest: set_takeWhileD)
  moreover have "\<forall>c \<in> set (rev (takeWhile is_space (rev ?w))). is_space c"
    by (auto dest: set_takeWhileD)
  ultimately show ?thesis by blast
qed

lemma strip_last: "strip v \<noteq> [] \<Longrightarrow> \<not> is_space (last (strip v))"
  by (simp add: strip_def last_rev hd_dropWhile)

lemma strip_hd: "strip v \<noteq> [] \<Longrightarrow> \<not> is_space (hd (strip v))"
proof -
  assume ne: "strip v \<noteq> []"
  let ?w = "dropWhile is_space v"
  have w: "?w = strip v @ rev (takeWhile is_space (rev ?w))"
    unfolding strip_def by (rule trim_right_split)
  with ne have "hd ?w = hd (strip v)"
    by (metis hd_append2)
  moreover from ne have "?w \<noteq> []"
    by (simp add: strip_empty_iff)
  then have "\<not> is_space (hd ?w)"
    by (rule hd_dropWhile)
  ultimately show ?thesis
    by simp
qed

lemma validate_field_Inr:
  "\<not> (\<forall>c \<in> set v. is_space c) \<Longrightarrow> validate_field v = Inr (strip v)"
  by (auto simp: validate_field_def validate_not_empty_def strip_empty_iff)

lemma validate_field_Inl:
  "\<forall>c \<in> set v. is_space c \<Longrightarrow> \<exists>e. validate_field v = Inl e"
  by (simp add: validate_field_def validate_not_empty_def strip_empty_iff)

text \<open>
  C10. A class name or method name that is empty or holds only whitespace is rejected
  with validation errors, and the endpoint function is not called, so no pipeline run
  starts. Otherwise the endpoint function, and through it the service, receives each
  name with its leading and trailing whitespace removed: the name is the stripped value
  between two runs of whitespace, and the stripped value is not empty and neither
  begins nor ends with whitespace.
\<close>

theorem request_names_stripped_or_rejected:
  "(((\<forall>c \<in> set raw_class_name. is_space c) \<or> (\<forall>c \<in> set raw_method_name. is_space c)) \<longrightarrow>
      (\<exists>errors. errors \<noteq> [] \<and>
         post_refactor endpoint raw_class_name raw_method_name = Inl errors)) \<and>
   (\<not> (\<forall>c \<in> set raw_class_name. is_space c) \<and> \<not> (\<forall>c \<in> set raw_method_name. is_space c) \<longrightarrow>
      post_refactor endpoint raw_class_name raw_method_name =
        Inr (endpoint \<lparr>request_class_name = strip raw_class_name,
                        request_method_name = strip raw_method_name\<rparr>) \<and>
      post_refactor (call_service lib svc) raw_class_name raw_method_name =
        Inr (refactor_method lib svc (strip raw_class_name) (strip raw_method_name)) \<and>
      (\<forall>v \<in> {raw_class_name, raw_method_name}.
         strip v \<noteq> [] \<and> \<not> is_space (hd (strip v)) \<and> \<not> is_space (last (strip v)) \<and>
         (\<exists>pre post. v = pre @ strip v @ post \<and> (\<forall>c \<in> set pre. is_space c) \<and>
            (\<forall>c \<in> set post. is_space c))))"
proof (intro conjI impI)
  assume "(\<forall>c \<in> set raw_class_name. is_space c) \<or> (\<forall>c \<in> set raw_method_name. is_space c)"
  then show "\<exists>errors. errors \<noteq> [] \<and>
      post_refactor endpoint raw_class_name raw_method_name = Inl errors"
  proof
    assume "\<forall>c \<in> set raw_class_name. is_space c"
    then obtain e where "validate_field raw_class_name = Inl e"
      using validate_field_Inl by blast
    then show ?thesis
      by (simp add: post_refactor_def validate_request_def split: sum.splits)
  next
    assume "\<forall>c \<in> set raw_method_name. is_space c"
    then obtain e where "validate_field raw_method_name = Inl e"
      using validate_field_Inl by blast
    then show ?thesis
      by (simp add: post_refactor_def validate_request_def split: sum.splits)
  qed
next
  assume ok: "\<not> (\<forall>c \<in> set raw_class_name. is_space c) \<and> \<not> (\<forall>c \<in> set raw_method_name. is_space c)"
  then have fields: "validate_field raw_class_name = Inr (strip raw_class_name)"
    "validate_field raw_method_name = Inr (strip raw_method_name)"
    by (simp_all add: validate_field_Inr)
  show "post_refactor endpoint raw_class_name raw_method_name =
        Inr (endpoint \<lparr>request_class_name = strip raw_class_name,
                        request_method_name = strip raw_method_name\<rparr>)"
    by (simp add: post_refactor_def validate_request_def fields)
  show "post_refactor (call_service lib svc) raw_class_name raw_method_name =
        Inr (refactor_method lib svc (strip raw_class_name) (strip raw_method_name))"
    by (simp add: post_refactor_def validate_request_def fields call_service_def)
  from ok have ne: "strip raw_class_name \<noteq> []" "strip raw_method_name \<noteq> []"
    by (simp_all add: strip_empty_iff)
  show "\<forall>v \<in> {raw_class_name, raw_method_name}.
         strip v \<noteq> [] \<and> \<not> is_space (hd (strip v)) \<and> \<not> is_space (last (strip v)) \<and>
         (\<exists>pre post. v = pre @ strip v @ post \<and> (\<forall>c \<in> set pre. is_space c) \<and>
            (\<forall>c \<in> set post. is_space c))"
    using ne strip_hd strip_last strip_decomposition by simp
qed

theorem request_names_stripped_or_rejected_witness:
  "isl (post_refactor (call_service (library_with echo_run) (AgentService default_settings))
          [32, 9] (str_of ''sum:with:'')) \<and>
   post_refactor (call_service (library_with echo_run) (AgentService default_settings))
     (32 # str_of ''Calculator'' @ [9]) (str_of ''sum:with:'' @ [10]) =
     Inr (refactor_method (library_with echo_run) (AgentService default_settings)
            (str_of ''Calculator'') (str_of ''sum:with:'')) \<and>
   strip (32 # str_of ''Calculator'' @ [9]) = str_of ''Calculator''"
proof -
  let ?e = "call_service (library_with echo_run) (AgentService default_settings)"
  have blank: "\<forall>c \<in> set [32, 9]. is_space c"
    by (simp add: is_space_def)
  have s1: "strip (32 # str_of ''Calculator'' @ [9]) = str_of ''Calculator''"
    by (simp add: strip_def is_space_def str_of_def)
  have s2: "strip (str_of ''sum:with:'' @ [10]) = str_of ''sum:with:''"
    by (simp add: strip_def is_space_def str_of_def)
  have ok: "\<not> (\<forall>c \<in> set (32 # str_of ''Calculator'' @ [9]). is_space c)"
    "\<not> (\<forall>c \<in> set (str_of ''sum:with:'' @ [10]). is_space c)"
    by (simp_all add: is_space_def str_of_def)
  from request_names_stripped_or_rejected
    [of "[32, 9]" "str_of ''sum:with:''" ?e "library_with echo_run" "AgentService default_settings"] blank
  have "isl (post_refactor ?e [32, 9] (str_of ''sum:with:''))"
    by auto
  moreover
  from request_names_stripped_or_rejected
    [of "32 # str_of ''Calculator'' @ [9]" "str_of ''sum:with:'' @ [10]" ?e "library_with echo_run"
      "AgentService default_settings"] ok
  have "post_refactor ?e (32 # str_of ''Calculator'' @ [9]) (str_of ''sum:with:'' @ [10]) =
     Inr (refactor_method (library_with echo_run) (AgentService default_settings)
            (str_of ''Calculator'') (str_of ''sum:with:''))"
    by (simp add: s1 s2 call_service_def)
  ultimately show ?thesis using s1 by simp
qed

section \<open>Properties of the pipeline runner\<close>

lemma write_back_events: "events (write_back tc st) = events st"
  by (cases tc) simp_all

lemma write_back_failure: "failure (write_back tc st) = failure st"
  by (cases tc) simp_all

lemma apply_tool_call_events: "events (apply_tool_call tools c st) = events st"
  by (cases c) (simp_all add: write_back_events)

lemma apply_tool_call_failure: "failure (apply_tool_call tools c st) = failure st"
  by (cases c) (simp_all add: write_back_failure)

lemma apply_tool_call_flag:
  "FunctionTool ''exit_validation_loop'' \<notin> set tools \<or> c \<noteq> exit_validation_loop_call \<Longrightarrow>
   escalate_flag (apply_tool_call tools c st) = escalate_flag st"
  by (cases c) (auto simp: save_context_def context_of_def)

lemma fold_tool_calls_events:
  "events (fold (apply_tool_call tools) cs st) = events st"
  by (induction cs arbitrary: st) (simp_all add: apply_tool_call_events)

lemma fold_tool_calls_failure:
  "failure (fold (apply_tool_call tools) cs st) = failure st"
  by (induction cs arbitrary: st) (simp_all add: apply_tool_call_failure)

lemma fold_tool_calls_flag:
  "FunctionTool ''exit_validation_loop'' \<notin> set tools \<or> exit_validation_loop_call \<notin> set cs \<Longrightarrow>
   escalate_flag (fold (apply_tool_call tools) cs st) = escalate_flag st"
proof (induction cs arbitrary: st)
  case Nil
  then show ?case by simp
next
  case (Cons c cs)
  from Cons.prems
  have "escalate_flag (apply_tool_call tools c st) = escalate_flag st"
    by (intro apply_tool_call_flag) auto
  moreover from Cons.prems
  have "escalate_flag (fold (apply_tool_call tools) cs (apply_tool_call tools c st)) =
      escalate_flag (apply_tool_call tools c st)"
    by (intro Cons.IH) auto
  ultimately show ?case by simp
qed

lemma run_stage_events:
  "events (run_stage orc name tools key st) = events st @ [StageRun name]"
  by (simp add: run_stage_def Let_def fold_tool_calls_events split: sum.splits option.splits)

text \<open>What a stage that answers does to the run state.\<close>

lemma run_stage_reply:
  assumes "orc name (blackboard st) = Inr reply"
    and "FunctionTool ''exit_validation_loop'' \<notin> set tools \<or>
         exit_validation_loop_call \<notin> set (tool_calls reply)"
  shows "failure (run_stage orc name tools key st) = failure st"
    and "escalate_flag (run_stage orc name tools key st) = escalate_flag st"
    and "produced reply = Some text \<Longrightarrow> blackboard (run_stage orc name tools key st) key = Some text"
  using assms
  by (simp_all add: run_stage_def Let_def fold_tool_calls_failure fold_tool_calls_flag
      split: option.splits)


lemma create_pipeline_shape:
  "\<exists>m ts. snd (create_pipeline svc) =
     SequentialAgent ''PharoRefactoringPipeline''
       [Agent ''ReviewerAgent'' m [Toolset ts, FunctionTool ''save_context''] ''code_review'',
        Agent ''InitialWriterAgent'' m [] ''refactored_code'',
        LoopAgent ''ValidationLoop''
          [Agent ''ValidatorAgent'' m [Toolset ts] ''validation_result'',
           Agent ''RefinerAgent'' m [FunctionTool ''exit_validation_loop''] ''refactored_code'']
          (max_validation_iterations (settings svc)),
        Agent ''ReleaseAgent'' m [Toolset ts, FunctionTool ''generate_compilation_script'']
          ''release_status'']"
  by (simp add: create_pipeline_def init_toolset_def Let_def create_reviewer_agent_def
      create_initial_writer_agent_def create_validator_agent_def create_refiner_agent_def
      create_release_agent_def split: option.splits)

lemma iteration_events:
  "events (run_agents orc [Agent v m tv kv, Agent r m' tr kr] st) = events st @ [StageRun v] \<or>
   events (run_agents orc [Agent v m tv kv, Agent r m' tr kr] st) =
     events st @ [StageRun v, StageRun r]"
  by (simp add: Let_def run_stage_events)

lemma iteration_count:
  assumes "v \<noteq> r"
  shows "count_list (events (run_agents orc [Agent v m tv kv, Agent r m' tr kr] st)) (StageRun name)
      \<le> count_list (events st) (StageRun name) + 1"
  using iteration_events [of orc v m tv kv r m' tr kr st] assms by auto

lemma loop_count:
  assumes "v \<noteq> r"
  shows "count_list (events (run_loop orc [Agent v m tv kv, Agent r m' tr kr] mx n st)) (StageRun name)
      \<le> count_list (events st) (StageRun name) + nat (mx - n)"
proof (induction "nat (mx - n)" arbitrary: n st)
  case 0
  then have "mx \<le> n" by simp
  then show ?case by (subst run_loop.simps) simp
next
  case (Suc k)
  let ?subs = "[Agent v m tv kv, Agent r m' tr kr]"
  let ?st' = "run_agents orc ?subs st"
  from Suc(2) have lt: "\<not> mx \<le> n" and k: "k = nat (mx - (n + 1))" by simp_all
  have one: "count_list (events ?st') (StageRun name) \<le> count_list (events st) (StageRun name) + 1"
    using assms by (rule iteration_count)
  have rest: "count_list (events (run_loop orc ?subs mx (n + 1) ?st')) (StageRun name)
      \<le> count_list (events ?st') (StageRun name) + nat (mx - (n + 1))"
    using k by (rule Suc(1))
  have "run_loop orc ?subs mx n st =
      (if failure ?st' \<noteq> None then ?st'
       else if escalate_flag ?st' then ?st'\<lparr>events := events ?st' @ [LoopEnded EXITED (n + 1)]\<rparr>
       else run_loop orc ?subs mx (n + 1) ?st')"
    using lt by (subst run_loop.simps) (simp add: Let_def)
  then show ?case
    using one rest Suc(2) k by (auto simp del: run_agents.simps)
qed


lemma pipeline_unfold:
  "run_agent orc (SequentialAgent pn [Agent a ma ta ka, Agent b mb tb kb,
      LoopAgent ln subs mx, Agent c mc tc kc]) st =
   (let st1 = run_stage orc a ta ka st in
    if failure st1 \<noteq> None then st1
    else let st2 = run_stage orc b tb kb st1 in
      if failure st2 \<noteq> None then st2
      else let st3 = run_loop orc subs mx 0 st2 in
        if failure st3 \<noteq> None then st3
        else run_stage orc c tc kc st3)"
  by (simp add: Let_def del: run_loop.simps)

lemma pipeline_count:
  assumes "name \<notin> {a, b, c}" and "v \<noteq> r"
  shows "count_list (events (run_agent orc (SequentialAgent pn [Agent a ma ta ka, Agent b mb tb kb,
      LoopAgent ln [Agent v m tv kv, Agent r m' tr kr] mx, Agent c mc tc kc]) st)) (StageRun name)
      \<le> count_list (events st) (StageRun name) + nat mx"
proof -
  let ?st1 = "run_stage orc a ta ka st"
  let ?st2 = "run_stage orc b tb kb ?st1"
  let ?st3 = "run_loop orc [Agent v m tv kv, Agent r m' tr kr] mx 0 ?st2"
  let ?st4 = "run_stage orc c tc kc ?st3"
  let ?n = "\<lambda>x. count_list (events x) (StageRun name)"
  have c1: "?n ?st1 = ?n st" and c2: "?n ?st2 = ?n ?st1" and c4: "?n ?st4 = ?n ?st3"
    using assms(1) by (auto simp: run_stage_events)
  have c3: "?n ?st3 \<le> ?n ?st2 + nat mx"
    using loop_count [OF assms(2), of orc m tv kv m' tr kr mx 0 ?st2 name] by simp
  show ?thesis
    unfolding pipeline_unfold Let_def using c1 c2 c3 c4 by auto
qed

lemma needs_improvement_not_approved:
  "prefix (str_of ''NEEDS IMPROVEMENT'') v \<Longrightarrow> \<not> prefix (str_of ''APPROVED'') v"
  by (auto simp: prefix_def str_of_def)

lemma stubborn_iteration:
  assumes validator: "\<forall>bb. \<exists>reply v. orc ''ValidatorAgent'' bb = Inr reply \<and>
      produced reply = Some v \<and> prefix (str_of ''NEEDS IMPROVEMENT'') v"
    and refiner: "\<forall>bb v. bb ''validation_result'' = Some v \<and> \<not> prefix (str_of ''APPROVED'') v \<longrightarrow>
      (\<exists>reply. orc ''RefinerAgent'' bb = Inr reply \<and>
        exit_validation_loop_call \<notin> set (tool_calls reply))"
    and ok: "failure st = None" "\<not> escalate_flag st"
  shows "failure (run_agents orc
            [Agent ''ValidatorAgent'' m [Toolset ts] ''validation_result'',
             Agent ''RefinerAgent'' m [FunctionTool ''exit_validation_loop''] ''refactored_code'']
            st) = None \<and>
         \<not> escalate_flag (run_agents orc
            [Agent ''ValidatorAgent'' m [Toolset ts] ''validation_result'',
             Agent ''RefinerAgent'' m [FunctionTool ''exit_validation_loop''] ''refactored_code'']
            st) \<and>
         events (run_agents orc
            [Agent ''ValidatorAgent'' m [Toolset ts] ''validation_result'',
             Agent ''RefinerAgent'' m [FunctionTool ''exit_validation_loop''] ''refactored_code'']
            st) = events st @ [StageRun ''ValidatorAgent'', StageRun ''RefinerAgent'']"
proof -
  let ?st1 = "run_stage orc ''ValidatorAgent'' [Toolset ts] ''validation_result'' st"
  let ?st2 = "run_stage orc ''RefinerAgent'' [FunctionTool ''exit_validation_loop'']
                ''refactored_code'' ?st1"
  from validator obtain reply v where
    v: "orc ''ValidatorAgent'' (blackboard st) = Inr reply" "produced reply = Some v"
      "prefix (str_of ''NEEDS IMPROVEMENT'') v"
    by blast
  have tv: "FunctionTool ''exit_validation_loop'' \<notin> set [Toolset ts] \<or>
      exit_validation_loop_call \<notin> set (tool_calls reply)"
    by simp
  have f1: "failure ?st1 = None" and e1: "\<not> escalate_flag ?st1"
    and b1: "blackboard ?st1 ''validation_result'' = Some v"
    using run_stage_reply [where orc = orc and name = "''ValidatorAgent''" and st = st
        and key = "''validation_result''", OF v(1) tv] v(2) ok by simp_all
  from refiner b1 needs_improvement_not_approved [OF v(3)]
  obtain reply2 where
    r: "orc ''RefinerAgent'' (blackboard ?st1) = Inr reply2"
      "exit_validation_loop_call \<notin> set (tool_calls reply2)"
    by blast
  from r(2) have tr: "FunctionTool ''exit_validation_loop'' \<notin> set [FunctionTool ''exit_validation_loop''] \<or>
      exit_validation_loop_call \<notin> set (tool_calls reply2)"
    by simp
  have f2: "failure ?st2 = None" and e2: "\<not> escalate_flag ?st2"
    using run_stage_reply(1,2) [where orc = orc and name = "''RefinerAgent''" and st = "?st1"
        and key = "''refactored_code''", OF r(1) tr] f1 e1 by simp_all
  have "run_agents orc
            [Agent ''ValidatorAgent'' m [Toolset ts] ''validation_result'',
             Agent ''RefinerAgent'' m [FunctionTool ''exit_validation_loop''] ''refactored_code'']
            st = ?st2"
    using f1 f2 by (simp add: Let_def)
  then show ?thesis
    using f2 e2 by (simp add: run_stage_events)
qed

lemma stubborn_loop:
  assumes validator: "\<forall>bb. \<exists>reply v. orc ''ValidatorAgent'' bb = Inr reply \<and>
      produced reply = Some v \<and> prefix (str_of ''NEEDS IMPROVEMENT'') v"
    and refiner: "\<forall>bb v. bb ''validation_result'' = Some v \<and> \<not> prefix (str_of ''APPROVED'') v \<longrightarrow>
      (\<exists>reply. orc ''RefinerAgent'' bb = Inr reply \<and>
        exit_validation_loop_call \<notin> set (tool_calls reply))"
    and ok: "failure st = None" "\<not> escalate_flag st"
  shows "failure (run_loop orc
            [Agent ''ValidatorAgent'' m [Toolset ts] ''validation_result'',
             Agent ''RefinerAgent'' m [FunctionTool ''exit_validation_loop''] ''refactored_code'']
            mx n st) = None \<and>
         \<not> escalate_flag (run_loop orc
            [Agent ''ValidatorAgent'' m [Toolset ts] ''validation_result'',
             Agent ''RefinerAgent'' m [FunctionTool ''exit_validation_loop''] ''refactored_code'']
            mx n st) \<and>
         events (run_loop orc
            [Agent ''ValidatorAgent'' m [Toolset ts] ''validation_result'',
             Agent ''RefinerAgent'' m [FunctionTool ''exit_validation_loop''] ''refactored_code'']
            mx n st) =
           events st @
           concat (replicate (nat (mx - n)) [StageRun ''ValidatorAgent'', StageRun ''RefinerAgent'']) @
           [LoopEnded CAPPED (max mx n)]"
  using ok
proof (induction "nat (mx - n)" arbitrary: n st)
  case 0
  then have "mx \<le> n" by simp
  with 0 show ?case by (subst (1 2 3) run_loop.simps) simp
next
  case (Suc k)
  let ?subs = "[Agent ''ValidatorAgent'' m [Toolset ts] ''validation_result'',
             Agent ''RefinerAgent'' m [FunctionTool ''exit_validation_loop''] ''refactored_code'']"
  let ?st' = "run_agents orc ?subs st"
  from Suc(2) have lt: "\<not> mx \<le> n" and k: "k = nat (mx - (n + 1))"
    and sk: "nat (mx - n) = Suc k" and mx: "max mx (n + 1) = max mx n"
    by simp_all
  from stubborn_iteration [where orc = orc and st = st and m = m and ts = ts,
      OF validator refiner Suc(3,4)]
  have it: "failure ?st' = None" "\<not> escalate_flag ?st'"
    "events ?st' = events st @ [StageRun ''ValidatorAgent'', StageRun ''RefinerAgent'']"
    by blast+
  have unfold: "run_loop orc ?subs mx n st = run_loop orc ?subs mx (n + 1) ?st'"
    using lt it(1,2) by (subst run_loop.simps) (simp add: Let_def del: run_agents.simps)
  from Suc(1) [OF k it(1,2)] show ?case
    unfolding unfold by (simp add: it(3) sk mx k [symmetric] del: run_agents.simps)
qed


lemma run_stage_flag:
  "FunctionTool ''exit_validation_loop'' \<notin> set tools \<Longrightarrow>
   escalate_flag (run_stage orc name tools key st) = escalate_flag st"
  by (simp add: run_stage_def Let_def fold_tool_calls_flag split: sum.splits option.splits)

text \<open>
  C4. The loop ends after at most \<^verbatim>\<open>max_validation_iterations\<close> iterations in every
  run: the Validator and the Refiner are each run at most that many times, whatever the
  stages answer. With the cap 3, a Validator that always answers
  \<^verbatim>\<open>NEEDS IMPROVEMENT\<close> and a Refiner that signals the exit only on an approval, the run
  is exactly: Reviewer, InitialWriter, three times Validator then Refiner, the loop ended
  CAPPED with counter 3, and then the Release stage; the escalate flag is not set.
\<close>

theorem bounded_refinement_loop:
  "(\<forall>name \<in> {''ValidatorAgent'', ''RefinerAgent''}.
      count_list (events (run_agent orc (snd (create_pipeline svc)) st)) (StageRun name) \<le>
      count_list (events st) (StageRun name) + nat (max_validation_iterations (settings svc))) \<and>
   (max_validation_iterations (settings svc) = 3 \<and>
    (\<forall>bb. \<exists>reply. orc ''ReviewerAgent'' bb = Inr reply) \<and>
    (\<forall>bb. \<exists>reply. orc ''InitialWriterAgent'' bb = Inr reply) \<and>
    (\<forall>bb. \<exists>reply v. orc ''ValidatorAgent'' bb = Inr reply \<and> produced reply = Some v \<and>
        prefix (str_of ''NEEDS IMPROVEMENT'') v) \<and>
    (\<forall>bb v. bb ''validation_result'' = Some v \<and> \<not> prefix (str_of ''APPROVED'') v \<longrightarrow>
        (\<exists>reply. orc ''RefinerAgent'' bb = Inr reply \<and>
           exit_validation_loop_call \<notin> set (tool_calls reply))) \<longrightarrow>
    events (run_agent orc (snd (create_pipeline svc)) initial_state) =
      [StageRun ''ReviewerAgent'', StageRun ''InitialWriterAgent'',
       StageRun ''ValidatorAgent'', StageRun ''RefinerAgent'',
       StageRun ''ValidatorAgent'', StageRun ''RefinerAgent'',
       StageRun ''ValidatorAgent'', StageRun ''RefinerAgent'',
       LoopEnded CAPPED 3, StageRun ''ReleaseAgent''] \<and>
    \<not> escalate_flag (run_agent orc (snd (create_pipeline svc)) initial_state))"
proof -
  obtain m ts where shape: "snd (create_pipeline svc) =
     SequentialAgent ''PharoRefactoringPipeline''
       [Agent ''ReviewerAgent'' m [Toolset ts, FunctionTool ''save_context''] ''code_review'',
        Agent ''InitialWriterAgent'' m [] ''refactored_code'',
        LoopAgent ''ValidationLoop''
          [Agent ''ValidatorAgent'' m [Toolset ts] ''validation_result'',
           Agent ''RefinerAgent'' m [FunctionTool ''exit_validation_loop''] ''refactored_code'']
          (max_validation_iterations (settings svc)),
        Agent ''ReleaseAgent'' m [Toolset ts, FunctionTool ''generate_compilation_script'']
          ''release_status'']"
    using create_pipeline_shape by blast
  have bound: "count_list (events (run_agent orc (snd (create_pipeline svc)) st)) (StageRun name) \<le>
      count_list (events st) (StageRun name) + nat (max_validation_iterations (settings svc))"
    if "name \<in> {''ValidatorAgent'', ''RefinerAgent''}" for name
    unfolding shape using that by (intro pipeline_count) auto
  have scenario: "events (run_agent orc (snd (create_pipeline svc)) initial_state) =
      [StageRun ''ReviewerAgent'', StageRun ''InitialWriterAgent'',
       StageRun ''ValidatorAgent'', StageRun ''RefinerAgent'',
       StageRun ''ValidatorAgent'', StageRun ''RefinerAgent'',
       StageRun ''ValidatorAgent'', StageRun ''RefinerAgent'',
       LoopEnded CAPPED 3, StageRun ''ReleaseAgent''] \<and>
    \<not> escalate_flag (run_agent orc (snd (create_pipeline svc)) initial_state)"
    if cap: "max_validation_iterations (settings svc) = 3"
      and reviewer: "\<forall>bb. \<exists>reply. orc ''ReviewerAgent'' bb = Inr reply"
      and writer: "\<forall>bb. \<exists>reply. orc ''InitialWriterAgent'' bb = Inr reply"
      and validator: "\<forall>bb. \<exists>reply v. orc ''ValidatorAgent'' bb = Inr reply \<and>
        produced reply = Some v \<and> prefix (str_of ''NEEDS IMPROVEMENT'') v"
      and refiner: "\<forall>bb v. bb ''validation_result'' = Some v \<and> \<not> prefix (str_of ''APPROVED'') v \<longrightarrow>
        (\<exists>reply. orc ''RefinerAgent'' bb = Inr reply \<and>
           exit_validation_loop_call \<notin> set (tool_calls reply))"
  proof -
    let ?st1 = "run_stage orc ''ReviewerAgent'' [Toolset ts, FunctionTool ''save_context'']
                  ''code_review'' initial_state"
    let ?st2 = "run_stage orc ''InitialWriterAgent'' [] ''refactored_code'' ?st1"
    let ?st3 = "run_loop orc
                  [Agent ''ValidatorAgent'' m [Toolset ts] ''validation_result'',
                   Agent ''RefinerAgent'' m [FunctionTool ''exit_validation_loop'']
                     ''refactored_code'']
                  3 0 ?st2"
    let ?st4 = "run_stage orc ''ReleaseAgent''
                  [Toolset ts, FunctionTool ''generate_compilation_script''] ''release_status'' ?st3"
    from reviewer obtain r1 where r1: "orc ''ReviewerAgent'' (blackboard initial_state) = Inr r1"
      by blast
    have f1: "failure ?st1 = None" and e1: "\<not> escalate_flag ?st1"
      using run_stage_reply(1,2) [where orc = orc and name = "''ReviewerAgent''"
          and st = initial_state and tools = "[Toolset ts, FunctionTool ''save_context'']"
          and key = "''code_review''", OF r1]
      by (simp_all add: initial_state_def)
    from writer obtain r2 where r2: "orc ''InitialWriterAgent'' (blackboard ?st1) = Inr r2"
      by blast
    have f2: "failure ?st2 = None" and e2: "\<not> escalate_flag ?st2"
      using run_stage_reply(1,2) [where orc = orc and name = "''InitialWriterAgent''"
          and st = "?st1" and tools = "[]" and key = "''refactored_code''", OF r2] f1 e1
      by simp_all
    from stubborn_loop [where orc = orc and st = "?st2" and m = m and ts = ts and mx = 3 and n = 0,
        OF validator refiner f2 e2]
    have f3: "failure ?st3 = None" and e3: "\<not> escalate_flag ?st3"
      and ev3: "events ?st3 = events ?st2 @
           concat (replicate (nat (3 - 0)) [StageRun ''ValidatorAgent'', StageRun ''RefinerAgent'']) @
           [LoopEnded CAPPED (max 3 0)]"
      by blast+
    have run: "run_agent orc (snd (create_pipeline svc)) initial_state = ?st4"
      unfolding shape cap pipeline_unfold Let_def using f1 f2 f3 by simp
    have "events ?st4 = events ?st3 @ [StageRun ''ReleaseAgent'']"
      by (rule run_stage_events)
    moreover have "escalate_flag ?st4 = escalate_flag ?st3"
      by (rule run_stage_flag) simp
    ultimately show ?thesis
      unfolding run using e3 ev3
      by (simp add: run_stage_events initial_state_def numeral_3_eq_3)
  qed
  from bound scenario show ?thesis by blast
qed

lemma stubborn_validator_replies:
  "(\<forall>bb. \<exists>reply. stubborn_validator ''ReviewerAgent'' bb = Inr reply) \<and>
   (\<forall>bb. \<exists>reply. stubborn_validator ''InitialWriterAgent'' bb = Inr reply) \<and>
   (\<forall>bb. \<exists>reply v. stubborn_validator ''ValidatorAgent'' bb = Inr reply \<and>
       produced reply = Some v \<and> prefix (str_of ''NEEDS IMPROVEMENT'') v) \<and>
   (\<forall>bb v. bb ''validation_result'' = Some v \<and> \<not> prefix (str_of ''APPROVED'') v \<longrightarrow>
       (\<exists>reply. stubborn_validator ''RefinerAgent'' bb = Inr reply \<and>
          exit_validation_loop_call \<notin> set (tool_calls reply)))"
  by (simp add: stubborn_validator_def str_of_def)

theorem bounded_refinement_loop_witness:
  "max_validation_iterations (settings (AgentService default_settings)) = 3 \<and>
   events (run_agent stubborn_validator (snd (create_pipeline (AgentService default_settings)))
             initial_state) =
      [StageRun ''ReviewerAgent'', StageRun ''InitialWriterAgent'',
       StageRun ''ValidatorAgent'', StageRun ''RefinerAgent'',
       StageRun ''ValidatorAgent'', StageRun ''RefinerAgent'',
       StageRun ''ValidatorAgent'', StageRun ''RefinerAgent'',
       LoopEnded CAPPED 3, StageRun ''ReleaseAgent''] \<and>
   \<not> escalate_flag (run_agent stubborn_validator
        (snd (create_pipeline (AgentService default_settings))) initial_state) \<and>
   count_list (events (run_agent stubborn_validator
        (snd (create_pipeline (AgentService default_settings))) initial_state))
     (StageRun ''ValidatorAgent'') \<le> 3"
proof -
  have cap: "max_validation_iterations (settings (AgentService default_settings)) = 3"
    by (simp add: AgentService_def default_settings_def)
  from bounded_refinement_loop [of stubborn_validator "AgentService default_settings" initial_state]
    cap stubborn_validator_replies
  show ?thesis
    by (simp add: initial_state_def)
qed

section \<open>The exit signal\<close>










end
